theory Spec2Isabelle
  imports Main
begin

section \<open>The PDF-to-Excel client (frontend/src/App.js)\<close>

text \<open>
  The single source file with program logic is the React component \<open>App\<close>. Its state is
  the six \<open>useState\<close> cells; each handler is modelled as a function from the state
  (and what the environment delivers: the dropped files, the server's answer) to the new
  state and the list of effects it performs, in the order of the source. State setters
  are applied in program order; React's batching does not change the final state.
\<close>

subsection \<open>JavaScript strings\<close>

text \<open>
  File names and messages are \<open>string\<close>s. \<open>String.prototype.toLowerCase\<close> is modelled on
  the letters \<open>A\<close>..\<open>Z\<close>; every other character is left as it is. No character outside
  \<open>A\<close>..\<open>Z\<close> has \<open>.\<close>, \<open>p\<close>, \<open>d\<close> or \<open>f\<close> as its lower case, which is all the suffix test
  of the source looks at.
\<close>

definition toLowerCaseChar :: "char \<Rightarrow> char" where
  "toLowerCaseChar c =
     (let n = (of_char c :: nat) in if 65 \<le> n \<and> n \<le> 90 then char_of (n + 32) else c)"

definition toLowerCase :: "string \<Rightarrow> string" where
  "toLowerCase s = map toLowerCaseChar s"

text \<open>\<open>s.endsWith(suffix)\<close>: the last \<open>length suffix\<close> characters of \<open>s\<close> are \<open>suffix\<close>.\<close>

definition endsWith :: "string \<Rightarrow> string \<Rightarrow> bool" where
  "endsWith s suf =
     (length suf \<le> length s \<and> drop (length s - length suf) s = suf)"

text \<open>\<open>s.startsWith(p)\<close>, used to find the position of a match.\<close>

fun startsWith :: "string \<Rightarrow> string \<Rightarrow> bool" where
  "startsWith s [] = True"
| "startsWith [] (p # ps) = False"
| "startsWith (c # cs) (p # ps) = (c = p \<and> startsWith cs ps)"

text \<open>
  \<open>s.replace(pattern, replacement)\<close> with a string pattern: only the first occurrence of
  the pattern, compared character by character (case matters), is replaced; a string
  without the pattern is returned as it is. The replacement of the source, \<open>.xlsx\<close>, has
  no \<open>$\<close>, so it is inserted literally.
\<close>

fun replace_str :: "string \<Rightarrow> string \<Rightarrow> string \<Rightarrow> string" where
  "replace_str [] pat rep = (if pat = [] then rep else [])"
| "replace_str (c # cs) pat rep =
     (if startsWith (c # cs) pat then rep @ drop (length pat) (c # cs)
      else c # replace_str cs pat rep)"

text \<open>The decimal digits of a number, as a template literal prints it.\<close>

definition digit_char :: "nat \<Rightarrow> char" where
  "digit_char d = char_of (48 + d)"

fun string_of_nat :: "nat \<Rightarrow> string" where
  "string_of_nat n =
     (if n < 10 then [digit_char n] else string_of_nat (n div 10) @ [digit_char (n mod 10)])"

declare string_of_nat.simps [simp del]

subsection \<open>Data\<close>

text \<open>A browser \<open>File\<close>: the two properties the component reads.\<close>

record js_file =
  name :: string
  size_bytes :: nat

text \<open>A table row is a sequence of cell strings.\<close>

type_synonym row = "string list"

text \<open>The object stored by \<open>setFileInfo\<close>.\<close>

record file_info =
  info_id :: string
  originalFilename :: string
  status :: string
  totalRows :: nat
  totalPages :: nat

text \<open>The body of a successful answer to \<open>POST /api/upload\<close>.\<close>

record upload_response =
  resp_id :: string
  original_filename :: string
  resp_status :: string
  total_rows :: nat
  total_pages :: nat
  preview_data :: "row list"

text \<open>
  \<open>Math.round((loaded * 100) / total)\<close>: a percentage, \<open>NaN\<close> (no total, or \<open>0 / 0\<close>) or
  \<open>Infinity\<close> (a positive count over \<open>0\<close>). Rounding is to the nearest integer, halves up,
  computed on the exact quotient; no claim below depends on the value.
\<close>

datatype progress = Percent nat | NaN | Infinity

record progress_event =
  loaded :: nat
  total :: "nat option"

definition progress_of :: "progress_event \<Rightarrow> progress" where
  "progress_of e =
     (case total e of
        None \<Rightarrow> NaN
      | Some t \<Rightarrow>
          if t = 0 then (if loaded e = 0 then NaN else Infinity)
          else Percent ((2 * (loaded e * 100) + t) div (2 * t)))"

text \<open>The six state cells of the component, \<open>null\<close> as \<open>None\<close>.\<close>

record app_state =
  "file" :: "js_file option"
  isDragging :: bool
  isUploading :: bool
  uploadProgress :: progress
  previewData :: "row list option"
  fileInfo :: "file_info option"

definition initial_state :: app_state where
  "initial_state =
     \<lparr> file = None, isDragging = False, isUploading = False,
       uploadProgress = Percent 0, previewData = None, fileInfo = None \<rparr>"

text \<open>
  What a handler does besides setting state: toasts (title, description), console
  output, HTTP requests (the URL), opening a window.
\<close>

datatype effect =
    PreventDefault
  | ToastError string string
  | ToastSuccess string string
  | ConsoleError string
  | AxiosPost string js_file
  | AxiosDelete string
  | WindowOpen string

subsection \<open>Constants and messages\<close>

definition MAX_FILE_SIZE :: nat where
  "MAX_FILE_SIZE = 10 * 1024 * 1024"

text \<open>The two rejection toasts of \<open>validateAndSetFile\<close>; accented letters by their code.\<close>

definition wrong_type_toast :: effect where
  "wrong_type_toast =
     ToastError ''Solo se permiten archivos PDF''
       (''Por favor selecciona un archivo con extensi'' @ [CHR 0xF3] @ ''n .pdf'')"

definition too_large_toast :: effect where
  "too_large_toast =
     ToastError ''Archivo demasiado grande''
       (''El tama'' @ [CHR 0xF1] @ ''o m'' @ [CHR 0xE1] @ ''ximo permitido es 10MB'')"

subsection \<open>Handlers\<close>

definition resetState :: "app_state \<Rightarrow> app_state" where
  "resetState s =
     s\<lparr> file := None, previewData := None, fileInfo := None, uploadProgress := Percent 0 \<rparr>"

definition handleDragOver :: "app_state \<Rightarrow> app_state \<times> effect list" where
  "handleDragOver s = (s\<lparr> isDragging := True \<rparr>, [PreventDefault])"

definition handleDragLeave :: "app_state \<Rightarrow> app_state \<times> effect list" where
  "handleDragLeave s = (s\<lparr> isDragging := False \<rparr>, [PreventDefault])"

definition validateAndSetFile :: "app_state \<Rightarrow> js_file \<Rightarrow> app_state \<times> effect list" where
  "validateAndSetFile s selectedFile =
     (if \<not> endsWith (toLowerCase (name selectedFile)) ''.pdf'' then (s, [wrong_type_toast])
      else if size_bytes selectedFile > MAX_FILE_SIZE then (s, [too_large_toast])
      else (s\<lparr> file := Some selectedFile, previewData := None, fileInfo := None \<rparr>, []))"

text \<open>\<open>e.dataTransfer.files\<close> is the list of dropped files; \<open>files[0]\<close> of an empty list is
  \<open>undefined\<close>, and nothing more happens.\<close>

definition handleDrop :: "app_state \<Rightarrow> js_file list \<Rightarrow> app_state \<times> effect list" where
  "handleDrop s files =
     (let s1 = s\<lparr> isDragging := False \<rparr> in
      case files of
        [] \<Rightarrow> (s1, [PreventDefault])
      | droppedFile # _ \<Rightarrow>
          (let (s2, effs) = validateAndSetFile s1 droppedFile in (s2, PreventDefault # effs)))"

definition handleFileSelect :: "app_state \<Rightarrow> js_file list \<Rightarrow> app_state \<times> effect list" where
  "handleFileSelect s files =
     (case files of
        [] \<Rightarrow> (s, [])
      | selectedFile # _ \<Rightarrow> validateAndSetFile s selectedFile)"

text \<open>
  What \<open>axios.post\<close> delivers: the body of a success answer, or an error whose
  \<open>error.response?.data?.detail\<close> is a string or is missing. The progress callback runs
  during the request, once for each event.
\<close>

datatype upload_outcome = Resolved upload_response | Rejected "string option"

text \<open>\<open>detail || "Error al procesar el archivo"\<close>: the empty string is falsy too.\<close>

definition error_message :: "string option \<Rightarrow> string" where
  "error_message detail =
     (case detail of
        None \<Rightarrow> ''Error al procesar el archivo''
      | Some d \<Rightarrow> if d = [] then ''Error al procesar el archivo'' else d)"

definition processed_toast :: "upload_response \<Rightarrow> effect" where
  "processed_toast r =
     ToastSuccess ''PDF procesado correctamente''
       (''Se encontraron '' @ string_of_nat (total_rows r) @ '' filas en '' @
        string_of_nat (total_pages r) @ '' p'' @ [CHR 0xE1] @ ''gina(s)'')"

definition uploadFile ::
  "string \<Rightarrow> app_state \<Rightarrow> progress_event list \<Rightarrow> upload_outcome \<Rightarrow> app_state \<times> effect list"
where
  "uploadFile API s events outcome =
     (case file s of
        None \<Rightarrow> (s, [])
      | Some f \<Rightarrow>
          (let s1 = s\<lparr> isUploading := True, uploadProgress := Percent 0 \<rparr>;
               s2 = fold (\<lambda>e st. st\<lparr> uploadProgress := progress_of e \<rparr>) events s1;
               post = AxiosPost (API @ ''/upload'') f
           in case outcome of
                Resolved r \<Rightarrow>
                  (s2\<lparr> fileInfo := Some \<lparr> info_id = resp_id r,
                                          originalFilename = original_filename r,
                                          status = resp_status r,
                                          totalRows = total_rows r,
                                          totalPages = total_pages r \<rparr>,
                       previewData := Some (preview_data r),
                       isUploading := False \<rparr>,
                   [post, processed_toast r])
              | Rejected detail \<Rightarrow>
                  ((resetState s2)\<lparr> isUploading := False \<rparr>,
                   [post, ConsoleError ''Upload error:'',
                    ToastError ''Error'' (error_message detail)])))"

text \<open>
  \<open>downloadFile\<close> sets no state. \<open>fileInfo?.id\<close> is falsy without file info and for the
  empty identifier. \<open>opened\<close> says whether \<open>window.open\<close> returned a window.
\<close>

definition popup_blocked_toast :: effect where
  "popup_blocked_toast =
     ToastError ''Popup bloqueado''
       (''Permite popups o haz clic derecho en el bot'' @ [CHR 0xF3] @
        ''n y selecciona '' @ [CHR 0x27] @ ''Abrir enlace en nueva pesta'' @ [CHR 0xF1] @
        ''a'' @ [CHR 0x27])"

definition downloadFile :: "string \<Rightarrow> app_state \<Rightarrow> bool \<Rightarrow> app_state \<times> effect list" where
  "downloadFile API s opened =
     (case fileInfo s of
        None \<Rightarrow> (s, [])
      | Some fi \<Rightarrow>
          if info_id fi = [] then (s, [])
          else
            (let downloadUrl = API @ ''/download/'' @ info_id fi in
             (s, [WindowOpen downloadUrl,
                  if opened
                  then ToastSuccess ''Descarga iniciada''
                         (''Archivo: '' @ replace_str (originalFilename fi) ''.pdf'' ''.xlsx'')
                  else popup_blocked_toast])))"

text \<open>What \<open>axios.delete\<close> delivers: an answer, or an error (any failure status, also the
  404 of an identifier the server no longer has, or no answer at all).\<close>

datatype delete_outcome = DeleteResolved | DeleteRejected

definition deleteFile :: "string \<Rightarrow> app_state \<Rightarrow> delete_outcome \<Rightarrow> app_state \<times> effect list" where
  "deleteFile API s outcome =
     (let effs =
        (case fileInfo s of
           None \<Rightarrow> []
         | Some fi \<Rightarrow>
             if info_id fi = [] then []
             else AxiosDelete (API @ ''/file/'' @ info_id fi) #
                  (case outcome of
                     DeleteResolved \<Rightarrow> []
                   | DeleteRejected \<Rightarrow> [ConsoleError ''Delete error:'']))
      in (resetState s, effs))"

subsection \<open>The preview table\<close>

text \<open>
  \<open>Math.max(...xs)\<close>: the highest argument, starting from \<open>-Infinity\<close> (here \<open>None\<close>), which
  is the answer for no argument.
\<close>

definition Math_max :: "nat list \<Rightarrow> nat option" where
  "Math_max xs =
     fold (\<lambda>x highest. case highest of
                          None \<Rightarrow> Some x
                        | Some h \<Rightarrow> if x > h then Some x else Some h) xs None"

text \<open>
  \<open>Array.from({ length: maxCols }, (_, i) => `Columna ${i + 1}`)\<close>; a length of
  \<open>-Infinity\<close> gives the empty array.
\<close>

definition getHeaders :: "app_state \<Rightarrow> string list" where
  "getHeaders s =
     (case previewData s of
        None \<Rightarrow> []
      | Some pd \<Rightarrow>
          if length pd = 0 then []
          else (case Math_max (map length pd) of
                  None \<Rightarrow> []
                | Some maxCols \<Rightarrow> map (\<lambda>i. ''Columna '' @ string_of_nat (i + 1)) [0..<maxCols]))"

text \<open>\<open>xs[i]\<close> is \<open>undefined\<close> (here \<open>None\<close>) out of range.\<close>

definition js_index :: "'a list \<Rightarrow> nat \<Rightarrow> 'a option" where
  "js_index xs i = (if i < length xs then Some (xs ! i) else None)"

text \<open>\<open>row[colIdx] || ''\<close>: \<open>undefined\<close> and the empty string are falsy.\<close>

definition cell_text :: "row \<Rightarrow> nat \<Rightarrow> string" where
  "cell_text row colIdx =
     (case js_index row colIdx of
        None \<Rightarrow> []
      | Some c \<Rightarrow> if c = [] then [] else c)"

text \<open>
  The preview section of the rendered page: the two numbers of the line
  \<open>Mostrando X de Y filas\<close>, the line itself, the header cells and the body rows, each a
  list of cell texts. The section is rendered only for \<open>previewData\<close> that is not \<open>null\<close>
  and has a row; \<open>fileInfo?.totalRows || previewData.length\<close> falls back to the
  number of preview rows without file info or for a total of \<open>0\<close>.
\<close>

record preview_section =
  shown_count :: nat
  of_total :: nat
  count_label :: string
  header_cells :: "string list"
  body_rows :: "string list list"

definition render_preview :: "app_state \<Rightarrow> preview_section option" where
  "render_preview s =
     (case previewData s of
        None \<Rightarrow> None
      | Some pd \<Rightarrow>
          if \<not> length pd > 0 then None
          else
            (let shown = min (length pd) 100;
                 tot = (case fileInfo s of
                          None \<Rightarrow> length pd
                        | Some fi \<Rightarrow> if totalRows fi = 0 then length pd else totalRows fi)
             in Some \<lparr> shown_count = shown,
                       of_total = tot,
                       count_label = ''Mostrando '' @ string_of_nat shown @ '' de '' @
                                     string_of_nat tot @ '' filas'',
                       header_cells = getHeaders s,
                       body_rows =
                         map (\<lambda>row. map (\<lambda>colIdx. cell_text row colIdx)
                                         [0..<length (getHeaders s)])
                             (take 100 pd) \<rparr>))"

text \<open>The body rows on the page; none when the section is not rendered.\<close>

definition rendered_rows :: "app_state \<Rightarrow> string list list" where
  "rendered_rows s = (case render_preview s of None \<Rightarrow> [] | Some p \<Rightarrow> body_rows p)"

subsection \<open>Example states\<close>

text \<open>The state after a successful upload of \<open>a.PDF\<close>, a table of three rows.\<close>

definition loaded_state :: app_state where
  "loaded_state =
     \<lparr> file = Some \<lparr> name = ''a.PDF'', size_bytes = 2048 \<rparr>,
       isDragging = False, isUploading = False, uploadProgress = Percent 100,
       previewData = Some [[''A'', ''B'', ''C''], [''1''], [''2'', ''3'']],
       fileInfo = Some \<lparr> info_id = ''f1'', originalFilename = ''a.PDF'', status = ''ready'',
                          totalRows = 3, totalPages = 1 \<rparr> \<rparr>"

text \<open>The state after \<open>a.PDF\<close> was selected and before it is uploaded.\<close>

definition selected_state :: app_state where
  "selected_state =
     \<lparr> file = Some \<lparr> name = ''a.PDF'', size_bytes = 2048 \<rparr>,
       isDragging = False, isUploading = False, uploadProgress = Percent 0,
       previewData = None, fileInfo = None \<rparr>"

section \<open>Properties\<close>

subsection \<open>Strings\<close>

lemma toLowerCase_length: "length (toLowerCase s) = length s"
  by (simp add: toLowerCase_def)

lemma endsWith_append: "endsWith (base @ suf) suf"
  by (simp add: endsWith_def)

lemma endsWith_iff: "endsWith s suf \<longleftrightarrow> (\<exists>base. s = base @ suf)"
proof
  assume "endsWith s suf"
  then have "s = take (length s - length suf) s @ suf"
    by (metis append_take_drop_id endsWith_def)
  then show "\<exists>base. s = base @ suf" ..
next
  assume "\<exists>base. s = base @ suf"
  then show "endsWith s suf"
    by (auto simp: endsWith_append)
qed

text \<open>Which characters have a given lower case: the letter itself and its capital.\<close>

lemma toLowerCaseChar_nat:
  "of_char (toLowerCaseChar c)
     = (let n = (of_char c :: nat) in if 65 \<le> n \<and> n \<le> 90 then n + 32 else n)"
  by (simp add: toLowerCaseChar_def Let_def)

lemma char_eq_iff_nat: "c = d \<longleftrightarrow> (of_char c :: nat) = of_char d"
  by simp

lemma lower_is_p: "toLowerCaseChar c = CHR ''p'' \<longleftrightarrow> c = CHR ''p'' \<or> c = CHR ''P''"
  by (simp add: char_eq_iff_nat [of _ "CHR ''p''"] char_eq_iff_nat [of _ "CHR ''P''"]
      toLowerCaseChar_nat Let_def) arith

lemma lower_is_d: "toLowerCaseChar c = CHR ''d'' \<longleftrightarrow> c = CHR ''d'' \<or> c = CHR ''D''"
  by (simp add: char_eq_iff_nat [of _ "CHR ''d''"] char_eq_iff_nat [of _ "CHR ''D''"]
      toLowerCaseChar_nat Let_def) arith

lemma lower_is_f: "toLowerCaseChar c = CHR ''f'' \<longleftrightarrow> c = CHR ''f'' \<or> c = CHR ''F''"
  by (simp add: char_eq_iff_nat [of _ "CHR ''f''"] char_eq_iff_nat [of _ "CHR ''F''"]
      toLowerCaseChar_nat Let_def) arith

lemma lower_is_dot: "toLowerCaseChar c = CHR ''.'' \<longleftrightarrow> c = CHR ''.''"
  by (simp add: char_eq_iff_nat [of _ "CHR ''.''"] toLowerCaseChar_nat Let_def)

text \<open>
  The type check of the source, spelled out: the name ends in a dot and the letters
  \<open>p\<close>, \<open>d\<close>, \<open>f\<close>, each in either case.
\<close>

lemma pdf_suffix_any_case:
  "endsWith (toLowerCase n) ''.pdf'' \<longleftrightarrow>
     (\<exists>base c1 c2 c3. n = base @ [CHR ''.'', c1, c2, c3]
        \<and> (c1 = CHR ''p'' \<or> c1 = CHR ''P'')
        \<and> (c2 = CHR ''d'' \<or> c2 = CHR ''D'')
        \<and> (c3 = CHR ''f'' \<or> c3 = CHR ''F''))"
proof
  assume "endsWith (toLowerCase n) ''.pdf''"
  then have "\<exists>b. map toLowerCaseChar n = b @ ''.pdf''"
    by (simp add: endsWith_iff toLowerCase_def)
  then obtain b where b: "map toLowerCaseChar n = b @ ''.pdf''" ..
  then obtain base ext where n: "n = base @ ext" and "map toLowerCaseChar ext = ''.pdf''"
    by (metis map_eq_append_conv)
  then obtain c0 c1 c2 c3 where ext: "ext = [c0, c1, c2, c3]"
    and l: "toLowerCaseChar c0 = CHR ''.''" "toLowerCaseChar c1 = CHR ''p''"
           "toLowerCaseChar c2 = CHR ''d''" "toLowerCaseChar c3 = CHR ''f''"
    by (auto simp: map_eq_Cons_conv)
  from l have "c0 = CHR ''.''" "c1 = CHR ''p'' \<or> c1 = CHR ''P''"
    "c2 = CHR ''d'' \<or> c2 = CHR ''D''" "c3 = CHR ''f'' \<or> c3 = CHR ''F''"
    by (simp_all only: lower_is_dot lower_is_p lower_is_d lower_is_f)
  with n ext show "\<exists>base c1 c2 c3. n = base @ [CHR ''.'', c1, c2, c3]
        \<and> (c1 = CHR ''p'' \<or> c1 = CHR ''P'')
        \<and> (c2 = CHR ''d'' \<or> c2 = CHR ''D'')
        \<and> (c3 = CHR ''f'' \<or> c3 = CHR ''F'')"
    by blast
next
  assume "\<exists>base c1 c2 c3. n = base @ [CHR ''.'', c1, c2, c3]
        \<and> (c1 = CHR ''p'' \<or> c1 = CHR ''P'')
        \<and> (c2 = CHR ''d'' \<or> c2 = CHR ''D'')
        \<and> (c3 = CHR ''f'' \<or> c3 = CHR ''F'')"
  then obtain base c1 c2 c3 where n: "n = base @ [CHR ''.'', c1, c2, c3]"
    and c: "toLowerCaseChar c1 = CHR ''p''" "toLowerCaseChar c2 = CHR ''d''"
           "toLowerCaseChar c3 = CHR ''f''"
    by (auto simp only: lower_is_p lower_is_d lower_is_f)
  have d: "toLowerCaseChar CHR ''.'' = CHR ''.''"
    by (simp add: lower_is_dot)
  have "toLowerCase n = toLowerCase base @ ''.pdf''"
    by (simp add: n toLowerCase_def c d)
  then show "endsWith (toLowerCase n) ''.pdf''"
    by (simp add: endsWith_append)
qed

lemma lower_a_PDF: "endsWith (toLowerCase ''a.PDF'') ''.pdf''"
  by code_simp

lemma lower_notes_txt: "\<not> endsWith (toLowerCase ''notes.txt'') ''.pdf''"
  by code_simp

subsection \<open>Upload validation\<close>

text \<open>
  C1. The size check of \<open>validateAndSetFile\<close>, which a file reaches once its name has
  passed the type check: a file of at most \<open>10 * 1024 * 1024\<close> bytes is accepted (it
  becomes the selected file, and no toast is shown), \<open>10 * 1024 * 1024\<close> bytes included;
  a larger file is rejected with the too-large toast. Whatever its name, a file of
  more than \<open>10 * 1024 * 1024\<close> bytes is rejected: a toast is shown and the state stays as
  it was.
\<close>

theorem validateAndSetFile_size_boundary:
  "(endsWith (toLowerCase (name f)) ''.pdf'' \<longrightarrow>
      (size_bytes f \<le> 10 * 1024 * 1024 \<longrightarrow>
         validateAndSetFile s f =
           (s\<lparr> file := Some f, previewData := None, fileInfo := None \<rparr>, []))
    \<and> (size_bytes f > 10 * 1024 * 1024 \<longrightarrow>
         validateAndSetFile s f = (s, [too_large_toast])))
   \<and> (size_bytes f > 10 * 1024 * 1024 \<longrightarrow>
         fst (validateAndSetFile s f) = s \<and> snd (validateAndSetFile s f) \<noteq> [])"
  by (simp add: validateAndSetFile_def MAX_FILE_SIZE_def)

theorem validateAndSetFile_size_boundary_witness:
  "endsWith (toLowerCase (name \<lparr> name = ''a.PDF'', size_bytes = 10485760 \<rparr>)) ''.pdf''
   \<and> validateAndSetFile initial_state \<lparr> name = ''a.PDF'', size_bytes = 10485760 \<rparr>
       = (initial_state\<lparr> file := Some \<lparr> name = ''a.PDF'', size_bytes = 10485760 \<rparr> \<rparr>, [])
   \<and> validateAndSetFile initial_state \<lparr> name = ''a.PDF'', size_bytes = 10485761 \<rparr>
       = (initial_state, [too_large_toast])"
  using lower_a_PDF
    validateAndSetFile_size_boundary
      [of "\<lparr> name = ''a.PDF'', size_bytes = 10485760 \<rparr>" initial_state]
    validateAndSetFile_size_boundary
      [of "\<lparr> name = ''a.PDF'', size_bytes = 10485761 \<rparr>" initial_state]
  by (simp add: initial_state_def)

text \<open>
  C2. \<open>validateAndSetFile\<close> rejects a file with the wrong-type toast, leaving the state as
  it was, exactly when its name, in lower case, does not end in \<open>.pdf\<close>; a name that
  does is never answered with that toast. The function sends no upload request.
\<close>

theorem validateAndSetFile_type_check:
  "(validateAndSetFile s f = (s, [wrong_type_toast])
      \<longleftrightarrow> \<not> endsWith (toLowerCase (name f)) ''.pdf'')
   \<and> (wrong_type_toast \<notin> set (snd (validateAndSetFile s f))
      \<longleftrightarrow> endsWith (toLowerCase (name f)) ''.pdf'')
   \<and> (\<forall>url g. AxiosPost url g \<notin> set (snd (validateAndSetFile s f)))"
  by (auto simp: validateAndSetFile_def wrong_type_toast_def too_large_toast_def)

theorem validateAndSetFile_type_check_witness:
  "validateAndSetFile initial_state \<lparr> name = ''notes.txt'', size_bytes = 5 \<rparr>
     = (initial_state, [wrong_type_toast])
   \<and> wrong_type_toast \<notin>
       set (snd (validateAndSetFile initial_state \<lparr> name = ''a.PDF'', size_bytes = 5 \<rparr>))"
  using validateAndSetFile_type_check [of initial_state "\<lparr> name = ''notes.txt'', size_bytes = 5 \<rparr>"]
    validateAndSetFile_type_check [of initial_state "\<lparr> name = ''a.PDF'', size_bytes = 5 \<rparr>"]
    lower_a_PDF lower_notes_txt
  by simp

text \<open>
  C10. A file is rejected by \<open>validateAndSetFile\<close> (a toast is shown) exactly when its
  name fails the type check or its size is over the limit, and then the state is what
  it was, every field. An accepted file sets the selected file, and sets the preview
  data and the file info to \<open>null\<close>; the dragging flag, the uploading flag and the upload
  progress are never touched.
\<close>

theorem validateAndSetFile_frame:
  "(snd (validateAndSetFile s f) \<noteq> []
      \<longleftrightarrow> \<not> endsWith (toLowerCase (name f)) ''.pdf'' \<or> size_bytes f > MAX_FILE_SIZE)
   \<and> (snd (validateAndSetFile s f) \<noteq> [] \<longrightarrow> fst (validateAndSetFile s f) = s)
   \<and> (snd (validateAndSetFile s f) = [] \<longrightarrow>
        fst (validateAndSetFile s f)
          = s\<lparr> file := Some f, previewData := None, fileInfo := None \<rparr>)
   \<and> isDragging (fst (validateAndSetFile s f)) = isDragging s
   \<and> isUploading (fst (validateAndSetFile s f)) = isUploading s
   \<and> uploadProgress (fst (validateAndSetFile s f)) = uploadProgress s"
  by (simp add: validateAndSetFile_def wrong_type_toast_def too_large_toast_def)

theorem validateAndSetFile_frame_witness:
  "snd (validateAndSetFile loaded_state \<lparr> name = ''notes.txt'', size_bytes = 5 \<rparr>) \<noteq> []
   \<and> fst (validateAndSetFile loaded_state \<lparr> name = ''notes.txt'', size_bytes = 5 \<rparr>) = loaded_state
   \<and> snd (validateAndSetFile loaded_state \<lparr> name = ''b.pdf'', size_bytes = 5 \<rparr>) = []
   \<and> fst (validateAndSetFile loaded_state \<lparr> name = ''b.pdf'', size_bytes = 5 \<rparr>)
       = loaded_state\<lparr> file := Some \<lparr> name = ''b.pdf'', size_bytes = 5 \<rparr>,
                       previewData := None, fileInfo := None \<rparr>"
proof -
  have b: "endsWith (toLowerCase ''b.pdf'') ''.pdf''"
    by code_simp
  show ?thesis
    using validateAndSetFile_frame [of loaded_state "\<lparr> name = ''notes.txt'', size_bytes = 5 \<rparr>"]
      validateAndSetFile_frame [of loaded_state "\<lparr> name = ''b.pdf'', size_bytes = 5 \<rparr>"]
      b lower_notes_txt
    by (simp add: MAX_FILE_SIZE_def)
qed

subsection \<open>Drag and drop\<close>

text \<open>
  C7. A drop of one or more files does what a drop of the first file alone does: the
  dragging flag is cleared and \<open>validateAndSetFile\<close> runs on \<open>files[0]\<close>; the other files
  change neither the state nor the effects.
\<close>

theorem handleDrop_first_file_only:
  "handleDrop s (f # rest) = handleDrop s [f]
   \<and> handleDrop s (f # rest) =
       (fst (validateAndSetFile (s\<lparr> isDragging := False \<rparr>) f),
        PreventDefault # snd (validateAndSetFile (s\<lparr> isDragging := False \<rparr>) f))"
  by (simp add: handleDrop_def split: prod.splits)

subsection \<open>Deleting\<close>

lemma resetState_idem: "resetState (resetState s) = resetState s"
  by (simp add: resetState_def)

text \<open>
  C8. Whatever the \<open>DELETE\<close> request does (it succeeds, it fails, the server no longer
  has the identifier, or no request is sent for want of an identifier), \<open>deleteFile\<close>
  ends in the reset state: no file, no preview data, no file info, progress \<open>0\<close>; this is
  the initial state when nothing is being dragged or uploaded. No error toast is
  shown. Deleting again gives the same state, and does nothing else.
\<close>

theorem deleteFile_always_resets:
  "fst (deleteFile API s outcome) = resetState s
   \<and> file (fst (deleteFile API s outcome)) = None
   \<and> previewData (fst (deleteFile API s outcome)) = None
   \<and> fileInfo (fst (deleteFile API s outcome)) = None
   \<and> uploadProgress (fst (deleteFile API s outcome)) = Percent 0
   \<and> (\<not> isDragging s \<and> \<not> isUploading s \<longrightarrow> fst (deleteFile API s outcome) = initial_state)
   \<and> (\<forall>t d. ToastError t d \<notin> set (snd (deleteFile API s outcome)))
   \<and> fst (deleteFile API (fst (deleteFile API s outcome)) outcome')
       = fst (deleteFile API s outcome)
   \<and> snd (deleteFile API (fst (deleteFile API s outcome)) outcome') = []"
  by (auto simp: deleteFile_def resetState_def initial_state_def Let_def
      split: option.splits delete_outcome.splits)

theorem deleteFile_always_resets_witness:
  "\<not> isDragging loaded_state \<and> \<not> isUploading loaded_state
   \<and> fst (deleteFile ''/api'' loaded_state DeleteRejected) = initial_state
   \<and> deleteFile ''/api'' (fst (deleteFile ''/api'' loaded_state DeleteRejected)) DeleteResolved
       = (initial_state, [])"
proof -
  have h: "\<not> isDragging loaded_state \<and> \<not> isUploading loaded_state"
    by (simp add: loaded_state_def)
  note t = deleteFile_always_resets [of "''/api''" loaded_state DeleteRejected DeleteResolved]
  from t h have a: "fst (deleteFile ''/api'' loaded_state DeleteRejected) = initial_state"
    by blast
  from t have b: "fst (deleteFile ''/api'' (fst (deleteFile ''/api'' loaded_state DeleteRejected))
                        DeleteResolved)
                    = fst (deleteFile ''/api'' loaded_state DeleteRejected)"
    by blast
  from t have c: "snd (deleteFile ''/api'' (fst (deleteFile ''/api'' loaded_state DeleteRejected))
                        DeleteResolved) = []"
    by blast
  from b c have "deleteFile ''/api'' (fst (deleteFile ''/api'' loaded_state DeleteRejected))
                   DeleteResolved
                 = (fst (deleteFile ''/api'' loaded_state DeleteRejected), [])"
    by (simp only: prod_eq_iff fst_conv snd_conv)
  with a have "deleteFile ''/api'' (fst (deleteFile ''/api'' loaded_state DeleteRejected))
                   DeleteResolved = (initial_state, [])"
    by (simp only:)
  with h a show ?thesis
    by blast
qed

subsection \<open>Uploading\<close>

text \<open>The progress callbacks set the progress cell and nothing else.\<close>

lemma progress_fold:
  "fold (\<lambda>e st. st\<lparr> uploadProgress := progress_of e \<rparr>) events s
     = s\<lparr> uploadProgress :=
           (if events = [] then uploadProgress s else progress_of (last events)) \<rparr>"
  by (induction events arbitrary: s) auto

lemma error_message_nonempty: "error_message detail \<noteq> []"
  by (simp add: error_message_def split: option.splits)

text \<open>Without a selected file \<open>uploadFile\<close> returns at once.\<close>

lemma uploadFile_nothing_selected: "file s = None \<Longrightarrow> uploadFile API s events outcome = (s, [])"
  by (simp add: uploadFile_def)

text \<open>
  A successful upload stores the answer: the preview data of the state are the
  \<open>preview_data\<close> of the response, the file info its other fields.
\<close>

lemma uploadFile_success:
  assumes "file s = Some f"
  shows "uploadFile API s events (Resolved r)
           = (s\<lparr> isUploading := False,
                 uploadProgress := (if events = [] then Percent 0 else progress_of (last events)),
                 fileInfo := Some \<lparr> info_id = resp_id r,
                                    originalFilename = original_filename r,
                                    status = resp_status r,
                                    totalRows = total_rows r,
                                    totalPages = total_pages r \<rparr>,
                 previewData := Some (preview_data r) \<rparr>,
              [AxiosPost (API @ ''/upload'') f, processed_toast r])"
  using assms by (simp add: uploadFile_def Let_def progress_fold)

text \<open>The example states are the states of one session: select, then upload.\<close>

lemma selected_state_reached:
  "fst (validateAndSetFile initial_state \<lparr> name = ''a.PDF'', size_bytes = 2048 \<rparr>)
     = selected_state"
  using lower_a_PDF
  by (simp add: validateAndSetFile_def initial_state_def selected_state_def MAX_FILE_SIZE_def)

lemma loaded_state_reached:
  "fst (uploadFile ''/api'' selected_state [\<lparr> loaded = 2048, total = Some 2048 \<rparr>]
          (Resolved \<lparr> resp_id = ''f1'', original_filename = ''a.PDF'', resp_status = ''ready'',
                      total_rows = 3, total_pages = 1,
                      preview_data = [[''A'', ''B'', ''C''], [''1''], [''2'', ''3'']] \<rparr>))
     = loaded_state"
  by (simp add: uploadFile_def selected_state_def loaded_state_def progress_of_def)

text \<open>
  C9. An upload (a file is selected) whose request fails, with any error and after any
  progress events, shows the error toast, whose description is the server's detail
  when there is one and a fixed text otherwise, never empty; and it leaves the state
  with no selected file, no preview data, no file info, progress \<open>0\<close> and the uploading
  flag off, the rest as before.
\<close>

theorem uploadFile_failure_clears:
  assumes "file s = Some f"
  shows "fst (uploadFile API s events (Rejected detail))
           = s\<lparr> file := None, previewData := None, fileInfo := None,
                uploadProgress := Percent 0, isUploading := False \<rparr>
       \<and> snd (uploadFile API s events (Rejected detail))
           = [AxiosPost (API @ ''/upload'') f, ConsoleError ''Upload error:'',
              ToastError ''Error'' (error_message detail)]
       \<and> error_message detail \<noteq> []
       \<and> (\<forall>d. detail = Some d \<and> d \<noteq> [] \<longrightarrow> error_message detail = d)"
  using assms
  by (simp add: uploadFile_def Let_def progress_fold resetState_def error_message_def
      split: option.splits)

theorem uploadFile_failure_clears_witness:
  "file selected_state = Some \<lparr> name = ''a.PDF'', size_bytes = 2048 \<rparr>
   \<and> uploadFile ''/api'' selected_state [\<lparr> loaded = 1024, total = Some 2048 \<rparr>]
         (Rejected (Some ''No se pudo leer el PDF''))
       = (initial_state,
          [AxiosPost ''/api/upload'' \<lparr> name = ''a.PDF'', size_bytes = 2048 \<rparr>,
           ConsoleError ''Upload error:'', ToastError ''Error'' ''No se pudo leer el PDF''])"
proof -
  have h: "file selected_state = Some \<lparr> name = ''a.PDF'', size_bytes = 2048 \<rparr>"
    by (simp add: selected_state_def)
  show ?thesis
    using h uploadFile_failure_clears [OF h, of "''/api''"
        "[\<lparr> loaded = 1024, total = Some 2048 \<rparr>]" "Some ''No se pudo leer el PDF''"]
    by (simp add: selected_state_def initial_state_def prod_eq_iff)
qed

subsection \<open>Downloading\<close>

text \<open>
  C3. The name shown after a download has started is
  \<open>originalFilename.replace('.pdf', '.xlsx')\<close>. For the upload \<open>a.PDF\<close>, a name the type
  check accepts, it is \<open>a.PDF\<close>, not \<open>a.xlsx\<close>: the match is case-sensitive. For
  \<open>a.pdf.pdf\<close> it is \<open>a.xlsx.pdf\<close>: the first occurrence is replaced, not the extension.
\<close>

theorem downloadFile_upper_case_extension:
  "endsWith (toLowerCase ''a.PDF'') ''.pdf''
   \<and> snd (downloadFile ''/api'' loaded_state True)
       = [WindowOpen ''/api/download/f1'',
          ToastSuccess ''Descarga iniciada'' ''Archivo: a.PDF'']
   \<and> replace_str ''a.PDF'' ''.pdf'' ''.xlsx'' \<noteq> ''a.xlsx''
   \<and> endsWith (toLowerCase ''a.pdf.pdf'') ''.pdf''
   \<and> replace_str ''a.pdf.pdf'' ''.pdf'' ''.xlsx'' = ''a.xlsx.pdf''"
proof -
  have "endsWith (toLowerCase ''a.pdf.pdf'') ''.pdf''"
    by code_simp
  then show ?thesis
    using lower_a_PDF by (simp add: downloadFile_def loaded_state_def)
qed

subsection \<open>The preview table\<close>

text \<open>\<open>Math.max\<close> of a list with an element is the greatest element.\<close>

lemma Math_max_fold:
  "fold (\<lambda>x highest. case highest of None \<Rightarrow> Some x
                       | Some h \<Rightarrow> if x > h then Some x else Some h) xs (Some (h0 :: nat))
     = Some (fold max xs h0)"
  by (induction xs arbitrary: h0) (auto simp: max_def)

lemma Math_max_Max: "xs \<noteq> [] \<Longrightarrow> Math_max xs = Some (Max (set xs))"
proof (cases xs)
  case Nil
  assume "xs \<noteq> []"
  with Nil show ?thesis by simp
next
  case (Cons x ys)
  then show ?thesis
    by (simp add: Math_max_def Math_max_fold Max.set_eq_fold del: set_simps)
qed

lemma getHeaders_length:
  assumes "previewData s = Some pd" and "pd \<noteq> []"
  shows "length (getHeaders s) = Max (set (map length pd))"
  using assms by (simp add: getHeaders_def Math_max_Max)

lemma cell_text_nth: "cell_text row j = (if j < length row then row ! j else [])"
  by (simp add: cell_text_def js_index_def)

lemma render_row_padded:
  assumes "length row \<le> n"
  shows "map (\<lambda>colIdx. cell_text row colIdx) [0..<n] = row @ replicate (n - length row) []"
  using assms by (auto simp: list_eq_iff_nth_eq cell_text_nth nth_append)

lemma row_width_le_Max: "row \<in> set pd \<Longrightarrow> length row \<le> Max (set (map length pd))"
  by simp

text \<open>
  With the header count at the greatest row width, the cells of a rendered row are
  the row's own cells followed by empty strings.
\<close>

lemma body_rows_padded:
  assumes "previewData s = Some pd" and "pd \<noteq> []"
  shows "map (\<lambda>row. map (\<lambda>colIdx. cell_text row colIdx) [0..<length (getHeaders s)]) (take 100 pd)
           = map (\<lambda>row. row @ replicate (Max (set (map length pd)) - length row) []) (take 100 pd)"
proof (rule map_cong [OF refl])
  fix row assume "row \<in> set (take 100 pd)"
  then have "row \<in> set pd" by (rule in_set_takeD)
  then have "length row \<le> Max (set (map length pd))" by simp
  then show "map (\<lambda>colIdx. cell_text row colIdx) [0..<length (getHeaders s)]
               = row @ replicate (Max (set (map length pd)) - length row) []"
    using assms by (simp add: getHeaders_length render_row_padded)
qed

lemma render_preview_Some:
  assumes "previewData s = Some pd" and "pd \<noteq> []"
  shows "render_preview s =
           Some \<lparr> shown_count = min (length pd) 100,
                  of_total = (case fileInfo s of
                                None \<Rightarrow> length pd
                              | Some fi \<Rightarrow> if totalRows fi = 0 then length pd else totalRows fi),
                  count_label = ''Mostrando '' @ string_of_nat (min (length pd) 100) @ '' de '' @
                     string_of_nat (case fileInfo s of
                                None \<Rightarrow> length pd
                              | Some fi \<Rightarrow> if totalRows fi = 0 then length pd else totalRows fi) @ '' filas'',
                  header_cells = getHeaders s,
                  body_rows = map (\<lambda>row. row @ replicate (Max (set (map length pd)) - length row) [])
                                  (take 100 pd) \<rparr>"
  using assms body_rows_padded [OF assms]
  by (simp add: render_preview_def Let_def)

lemma rendered_rows_eq:
  assumes "previewData s = Some pd"
  shows "rendered_rows s
           = map (\<lambda>row. row @ replicate (Max (set (map length pd)) - length row) []) (take 100 pd)"
proof (cases "pd = []")
  case True
  with assms show ?thesis by (simp add: rendered_rows_def render_preview_def)
next
  case False
  with assms show ?thesis by (simp add: rendered_rows_def render_preview_Some)
qed

text \<open>
  C4. For preview data of \<open>n\<close> rows, the page has \<open>min n 100\<close> body rows, never more than
  \<open>100\<close> (none at all for \<open>n = 0\<close>, when the section is not rendered). When the section
  is rendered, its line reads \<open>Mostrando X de Y filas\<close> with \<open>X = min n 100\<close>, and \<open>Y\<close> is the
  total of the file info when that is not \<open>0\<close>.
\<close>

theorem preview_row_cap:
  assumes "previewData s = Some pd"
  shows "length (rendered_rows s) = min (length pd) 100
       \<and> length (rendered_rows s) \<le> 100
       \<and> (pd \<noteq> [] \<longrightarrow>
            (\<exists>p. render_preview s = Some p
                \<and> body_rows p = rendered_rows s
                \<and> shown_count p = min (length pd) 100
                \<and> count_label p = ''Mostrando '' @ string_of_nat (min (length pd) 100) @
                                   '' de '' @ string_of_nat (of_total p) @ '' filas''
                \<and> (\<forall>fi. fileInfo s = Some fi \<and> totalRows fi \<noteq> 0 \<longrightarrow> of_total p = totalRows fi)))"
proof -
  have len: "length (rendered_rows s) = min (length pd) 100"
    using assms by (simp add: rendered_rows_eq min.commute)
  have sec: "\<exists>p. render_preview s = Some p
                \<and> body_rows p = rendered_rows s
                \<and> shown_count p = min (length pd) 100
                \<and> count_label p = ''Mostrando '' @ string_of_nat (min (length pd) 100) @
                                   '' de '' @ string_of_nat (of_total p) @ '' filas''
                \<and> (\<forall>fi. fileInfo s = Some fi \<and> totalRows fi \<noteq> 0 \<longrightarrow> of_total p = totalRows fi)"
    if "pd \<noteq> []"
    using assms that by (simp add: render_preview_Some rendered_rows_eq)
  from len sec show ?thesis by simp
qed

theorem preview_row_cap_witness:
  "previewData loaded_state = Some [[''A'', ''B'', ''C''], [''1''], [''2'', ''3'']]
   \<and> length (rendered_rows loaded_state) = 3
   \<and> (\<exists>p. render_preview loaded_state = Some p \<and> shown_count p = 3 \<and> of_total p = 3
          \<and> count_label p = ''Mostrando 3 de 3 filas'')"
proof -
  let ?pd = "[[''A'', ''B'', ''C''], [''1''], [''2'', ''3'']] :: row list"
  have h: "previewData loaded_state = Some ?pd"
    by (simp add: loaded_state_def)
  have fi: "fileInfo loaded_state = Some \<lparr> info_id = ''f1'', originalFilename = ''a.PDF'',
               status = ''ready'', totalRows = 3, totalPages = 1 \<rparr>"
    by (simp add: loaded_state_def)
  have d: "string_of_nat 3 = ''3''"
    by code_simp
  have ne: "?pd \<noteq> []"
    by simp
  from preview_row_cap [OF h] ne obtain p where
    p: "render_preview loaded_state = Some p"
       "shown_count p = min (length ?pd) 100"
       "count_label p = ''Mostrando '' @ string_of_nat (min (length ?pd) 100) @
                                   '' de '' @ string_of_nat (of_total p) @ '' filas''"
       "\<forall>fi. fileInfo loaded_state = Some fi \<and> totalRows fi \<noteq> 0 \<longrightarrow> of_total p = totalRows fi"
    by blast
  from p(4) fi have t: "of_total p = 3"
    by simp
  from p(2) have c: "shown_count p = 3"
    by simp
  have m3: "min (length ?pd) 100 = 3"
    by simp
  from p(3) t have l: "count_label p = ''Mostrando 3 de 3 filas''"
    by (simp only: m3 d) simp
  have n: "length (rendered_rows loaded_state) = 3"
    using preview_row_cap [OF h] by simp
  from h n p(1) c t l show ?thesis
    by blast
qed

text \<open>
  C5. For preview data with at least one row, the number of header cells is the
  greatest row width over all rows of the data: no row is wider, and some row is that
  wide. Every body row has that many cells: the row's own cells, then empty strings
  up to that width.
\<close>

theorem preview_columns_padded:
  assumes "previewData s = Some pd" and "pd \<noteq> []"
  shows "length (getHeaders s) = Max (set (map length pd))
       \<and> (\<forall>row \<in> set pd. length row \<le> length (getHeaders s))
       \<and> (\<exists>row \<in> set pd. length row = length (getHeaders s))
       \<and> (\<exists>p. render_preview s = Some p
             \<and> length (header_cells p) = Max (set (map length pd))
             \<and> length (body_rows p) = min (length pd) 100
             \<and> (\<forall>i < length (body_rows p).
                   length (body_rows p ! i) = Max (set (map length pd))
                 \<and> body_rows p ! i
                     = pd ! i @ replicate (Max (set (map length pd)) - length (pd ! i)) []))"
proof -
  let ?M = "Max (set (map length pd))"
  have hl: "length (getHeaders s) = ?M"
    using assms by (rule getHeaders_length)
  have le: "\<forall>row \<in> set pd. length row \<le> ?M"
    by simp
  have "?M \<in> set (map length pd)"
    using assms(2) by (intro Max_in) simp_all
  then have att: "\<exists>row \<in> set pd. length row = ?M"
    by auto
  have row: "length (pd ! i @ replicate (?M - length (pd ! i)) []) = ?M" if "i < length pd" for i
  proof -
    have "pd ! i \<in> set pd" using that by simp
    then have "length (pd ! i) \<le> ?M" using le by blast
    then show ?thesis by simp
  qed
  have sec: "\<exists>p. render_preview s = Some p
             \<and> length (header_cells p) = ?M
             \<and> length (body_rows p) = min (length pd) 100
             \<and> (\<forall>i < length (body_rows p).
                   length (body_rows p ! i) = ?M
                 \<and> body_rows p ! i = pd ! i @ replicate (?M - length (pd ! i)) [])"
    using assms hl row by (simp add: render_preview_Some min.commute)
  from hl le att sec show ?thesis by simp
qed

theorem preview_columns_padded_witness:
  "previewData loaded_state = Some [[''A'', ''B'', ''C''], [''1''], [''2'', ''3'']]
   \<and> [[''A'', ''B'', ''C''], [''1''], [''2'', ''3'']] \<noteq> ([] :: row list)
   \<and> length (getHeaders loaded_state) = 3
   \<and> (\<exists>p. render_preview loaded_state = Some p
          \<and> body_rows p ! 1 = [''1'', [], []] \<and> body_rows p ! 2 = [''2'', ''3'', []])"
proof -
  let ?pd = "[[''A'', ''B'', ''C''], [''1''], [''2'', ''3'']] :: row list"
  have h: "previewData loaded_state = Some ?pd"
    by (simp add: loaded_state_def)
  have ne: "?pd \<noteq> []"
    by simp
  have m: "Max (set (map length ?pd)) = 3"
    by simp
  from preview_columns_padded [OF h ne] obtain p where
    hd: "length (getHeaders loaded_state) = Max (set (map length ?pd))" and
    p: "render_preview loaded_state = Some p"
       "length (body_rows p) = min (length ?pd) 100"
       "\<forall>i < length (body_rows p).
           length (body_rows p ! i) = Max (set (map length ?pd))
         \<and> body_rows p ! i = ?pd ! i @ replicate (Max (set (map length ?pd)) - length (?pd ! i)) []"
    by blast
  from p(2) have len: "length (body_rows p) = 3"
    by simp
  from p(3) len have "body_rows p ! 1 = ?pd ! 1 @ replicate (Max (set (map length ?pd)) - length (?pd ! 1)) []"
    by simp
  then have r1: "body_rows p ! 1 = [''1'', [], []]"
    by (simp add: numeral_2_eq_2)
  from p(3) len have "body_rows p ! 2 = ?pd ! 2 @ replicate (Max (set (map length ?pd)) - length (?pd ! 2)) []"
    by simp
  then have r2: "body_rows p ! 2 = [''2'', ''3'', []]"
    by simp
  from hd m have "length (getHeaders loaded_state) = 3"
    by simp
  with h ne p(1) r1 r2 show ?thesis
    by blast
qed

text \<open>
  C6. The body rows are the first \<open>100\<close> rows of the preview data in their order, each
  mapped cell by cell in column order: cut back to its own width, body row \<open>i\<close> is row
  \<open>i\<close> of the data, and cell \<open>j\<close> of body row \<open>i\<close> is cell \<open>j\<close> of row \<open>i\<close>.
\<close>

theorem preview_rows_in_order:
  assumes "previewData s = Some pd"
  shows "rendered_rows s = map (\<lambda>row. map (\<lambda>j. cell_text row j) [0..<length (getHeaders s)]) (take 100 pd)
       \<and> map2 (\<lambda>cells row. take (length row) cells) (rendered_rows s) pd = take 100 pd
       \<and> (\<forall>i < length (rendered_rows s).
            i < length pd
          \<and> take (length (pd ! i)) (rendered_rows s ! i) = pd ! i
          \<and> (\<forall>j < length (pd ! i). rendered_rows s ! i ! j = pd ! i ! j))"
proof -
  let ?M = "Max (set (map length pd))"
  have raw: "rendered_rows s
        = map (\<lambda>row. map (\<lambda>j. cell_text row j) [0..<length (getHeaders s)]) (take 100 pd)"
    using assms by (simp add: rendered_rows_def render_preview_def Let_def)
  have pad: "rendered_rows s = map (\<lambda>row. row @ replicate (?M - length row) []) (take 100 pd)"
    using assms by (rule rendered_rows_eq)
  have len: "length (rendered_rows s) = min (length pd) 100"
    by (simp add: pad min.commute)
  have nth: "rendered_rows s ! i = pd ! i @ replicate (?M - length (pd ! i)) []"
    if "i < length (rendered_rows s)" for i
    using that by (simp add: pad)
  have trim: "map2 (\<lambda>cells row. take (length row) cells) (rendered_rows s) pd = take 100 pd"
    by (rule nth_equalityI) (simp_all add: len nth min.commute)
  have pt: "i < length pd
          \<and> take (length (pd ! i)) (rendered_rows s ! i) = pd ! i
          \<and> (\<forall>j < length (pd ! i). rendered_rows s ! i ! j = pd ! i ! j)"
    if "i < length (rendered_rows s)" for i
    using that nth [OF that] by (simp add: len nth_append)
  from raw trim pt show ?thesis by blast
qed

theorem preview_rows_in_order_witness:
  "previewData loaded_state = Some [[''A'', ''B'', ''C''], [''1''], [''2'', ''3'']]
   \<and> rendered_rows loaded_state = [[''A'', ''B'', ''C''], [''1'', [], []], [''2'', ''3'', []]]
   \<and> take (length [''2'', ''3'']) (rendered_rows loaded_state ! 2) = [''2'', ''3'']"
proof -
  have h: "previewData loaded_state = Some [[''A'', ''B'', ''C''], [''1''], [''2'', ''3'']]"
    by (simp add: loaded_state_def)
  have g: "getHeaders loaded_state = [''Columna 1'', ''Columna 2'', ''Columna 3'']"
    by code_simp
  show ?thesis
    using h preview_rows_in_order [OF h]
    by (simp add: g cell_text_def js_index_def upt_rec)
qed


end
